theory Spec2Isabelle
  imports Complex_Main "HOL-Library.AList" "HOL-Library.Sublist"
begin

section \<open>Client handles\<close>

text \<open>
  The pool of \<^verbatim>\<open>src/connection_manager.py\<close> stores opaque \<^verbatim>\<open>Memory\<close> objects. The only
  thing the pool ever does with one is the introspection of \<^verbatim>\<open>_cleanup_client\<close>, so a handle
  is modelled by exactly the attributes that the introspection reads: for each close or
  dispose operation, whether it is reachable and whether invoking it returns or raises.
\<close>

type_synonym key = string

text \<open>Readings of \<^verbatim>\<open>time.time()\<close>, in seconds.\<close>
type_synonym time = rat

datatype call = Returns | Raises

text \<open>
  \<^verbatim>\<open>vector_store.client\<close>: \<open>vc_close\<close> is its \<^verbatim>\<open>close\<close> attribute (\<open>None\<close> when
  \<^verbatim>\<open>hasattr\<close> fails), \<open>vc_inner_close\<close> is \<^verbatim>\<open>_client.close\<close> (\<open>None\<close> when there is no
  \<^verbatim>\<open>_client\<close> or it has no \<^verbatim>\<open>close\<close>).
\<close>
datatype vector_client = VectorClient (vc_close: "call option") (vc_inner_close: "call option")

datatype vector_store = VectorStore (vs_client: "vector_client option")

text \<open>
  \<^verbatim>\<open>client.db\<close>: \<open>db_connection\<close> is \<open>Some c\<close> when \<^verbatim>\<open>db.connection\<close> exists and is truthy,
  \<open>c\<close> being the outcome of \<^verbatim>\<open>db.connection.close()\<close>; likewise \<open>db_engine\<close> for
  \<^verbatim>\<open>db.engine.dispose()\<close>.
\<close>
datatype database = Database (db_connection: "call option") (db_engine: "call option")

datatype handle =
  Handle (hid: nat) (h_vector_store: "vector_store option") (h_db: "database option")

datatype exn = KeyError | IndexError | ValueError | TypeError | LibraryError string

text \<open>
  What a call of a method of the manager does: it returns a value, it lets an exception
  escape, or it never returns because it waits for \<^verbatim>\<open>threading.Lock\<close>, which is not
  reentrant, while the lock is already taken. The model runs the calls one after the
  other. Every \<^verbatim>\<open>with self._lock\<close> block that is left gives the lock back, so a lock that is
  taken when a call starts to wait for it is taken by the waiting thread itself, or was left
  behind by a call that never returned; nothing will release it.
\<close>
datatype 'a outcome = Return 'a | Raise exn | Blocked

section \<open>The state of a ConnectionManager\<close>

text \<open>
  Ghost events, recorded in program order. \<open>DelClient k l\<close> is the statement
  \<^verbatim>\<open>del self._clients[k]\<close> and \<open>CountWrite k l\<close> a store to or deletion of
  \<^verbatim>\<open>self._connection_counts[k]\<close>; \<open>l\<close> tells whether the lock was held at that moment.
\<close>
datatype event =
    Teardown key
  | VectorClose key call
  | DbClose key call
  | DelClient key bool
  | CountWrite key bool

text \<open>The reclaimer thread: whether it still runs, and the interval it was started with.\<close>
datatype thread = Thread (alive: bool) (t_interval: int)

text \<open>
  Python dictionaries keep insertion order: a store to a new key appends, a store to an
  existing key keeps its place. That is \<open>AList.update\<close> on an association list; \<open>map_of\<close>
  is the lookup and \<open>AList.delete\<close> is \<^verbatim>\<open>del\<close>.
\<close>
record pool =
  max_pool_size :: int
  cleanup_interval :: int
  idle_timeout :: int
  max_lifetime :: int
  clients :: "(key \<times> handle) list"
  connection_counts :: "(key \<times> int) list"
  last_used :: "(key \<times> time) list"
  client_created_time :: "(key \<times> time) list"
  lock :: bool
  cleanup_thread :: "thread option"
  stop_cleanup :: bool
  trace :: "event list"

definition new_manager :: "int \<Rightarrow> int \<Rightarrow> int \<Rightarrow> int \<Rightarrow> pool" where
  "new_manager mps ci it ml =
     \<lparr>max_pool_size = mps, cleanup_interval = ci, idle_timeout = it, max_lifetime = ml,
      clients = [], connection_counts = [], last_used = [], client_created_time = [],
      lock = False, cleanup_thread = None, stop_cleanup = False, trace = []\<rparr>"

definition default_manager :: pool where
  "default_manager = new_manager 10 300 600 3600"

definition emit :: "event \<Rightarrow> pool \<Rightarrow> pool" where
  "emit e s = s\<lparr>trace := trace s @ [e]\<rparr>"

section \<open>Teardown: \<^verbatim>\<open>_cleanup_client\<close>\<close>

text \<open>The close call that the first block of the \<^verbatim>\<open>try\<close> makes, if any.\<close>
definition vector_step :: "handle \<Rightarrow> call option" where
  "vector_step h =
     (case h_vector_store h of
        None \<Rightarrow> None
      | Some vs \<Rightarrow>
          (case vs_client vs of
             None \<Rightarrow> None
           | Some vc \<Rightarrow>
               (case vc_close vc of
                  Some c \<Rightarrow> Some c
                | None \<Rightarrow> vc_inner_close vc)))"

text \<open>The close or dispose call that the second block makes, if any.\<close>
definition db_step :: "handle \<Rightarrow> call option" where
  "db_step h =
     (case h_db h of
        None \<Rightarrow> None
      | Some d \<Rightarrow>
          (case db_connection d of
             Some c \<Rightarrow> Some c
           | None \<Rightarrow> db_engine d))"

text \<open>
  The two \<^verbatim>\<open>del\<close> statements that end the \<^verbatim>\<open>try\<close> block. A missing key in
  \<^verbatim>\<open>_connection_counts\<close> raises \<^verbatim>\<open>KeyError\<close>, which the handler swallows after the client
  has already been deleted.
\<close>
definition drop_entry :: "key \<Rightarrow> pool \<Rightarrow> pool" where
  "drop_entry client_id s =
     (let s1 = emit (DelClient client_id (lock s))
                 (s\<lparr>clients := AList.delete client_id (clients s)\<rparr>)
      in case map_of (connection_counts s1) client_id of
           None \<Rightarrow> s1
         | Some _ \<Rightarrow>
             emit (CountWrite client_id (lock s1))
               (s1\<lparr>connection_counts := AList.delete client_id (connection_counts s1)\<rparr>))"

text \<open>
  One \<^verbatim>\<open>try\<close> block holds both close steps and the deletions, and its handler only logs:
  an exception in a step skips everything after it.
\<close>
definition cleanup_client :: "key \<Rightarrow> pool \<Rightarrow> pool" where
  "cleanup_client client_id s =
     (case map_of (clients s) client_id of
        None \<Rightarrow> s
      | Some client \<Rightarrow>
          (let s1 = emit (Teardown client_id) s;
               v = vector_step client;
               s2 = (case v of None \<Rightarrow> s1 | Some c \<Rightarrow> emit (VectorClose client_id c) s1)
           in if v = Some Raises then s2
              else
                (let d = db_step client;
                     s3 = (case d of None \<Rightarrow> s2 | Some c \<Rightarrow> emit (DbClose client_id c) s2)
                 in if d = Some Raises then s3 else drop_entry client_id s3)))"

section \<open>\<^verbatim>\<open>release_client\<close> and \<^verbatim>\<open>cleanup_all\<close>\<close>

definition release_client :: "key \<Rightarrow> pool \<Rightarrow> unit outcome \<times> pool" where
  "release_client client_id s =
     (if lock s then (Blocked, s)
      else
        (let s1 = s\<lparr>lock := True\<rparr>;
             s2 = (case map_of (connection_counts s1) client_id of
                     None \<Rightarrow> s1
                   | Some n \<Rightarrow>
                       (let s' = emit (CountWrite client_id (lock s1))
                                   (s1\<lparr>connection_counts :=
                                         AList.update client_id (n - 1) (connection_counts s1)\<rparr>)
                        in if n - 1 \<le> 0 then cleanup_client client_id s' else s'))
         in (Return (), s2\<lparr>lock := False\<rparr>)))"

definition cleanup_all :: "pool \<Rightarrow> unit outcome \<times> pool" where
  "cleanup_all s =
     (if lock s then (Blocked, s)
      else
        (let s1 = s\<lparr>lock := True\<rparr>;
             client_ids = map fst (clients s1);
             s2 = foldl (\<lambda>t client_id. cleanup_client client_id t) s1 client_ids
         in (Return (), s2\<lparr>lock := False\<rparr>)))"

section \<open>\<^verbatim>\<open>get_client\<close> and the pressure eviction\<close>

text \<open>
  Leaving a \<^verbatim>\<open>with self._lock\<close> block, by return or by exception, releases the lock; a
  call that never returns keeps it.
\<close>
definition unlock :: "'a outcome \<times> pool \<Rightarrow> 'a outcome \<times> pool" where
  "unlock r = (case r of (Blocked, s) \<Rightarrow> (Blocked, s) | (x, s) \<Rightarrow> (x, s\<lparr>lock := False\<rparr>))"

text \<open>
  \<^verbatim>\<open>_force_cleanup_idle_connections\<close>. The whole body is inside \<^verbatim>\<open>try ... except Exception\<close>,
  so nothing escapes; \<^verbatim>\<open>hasattr(self, '_last_used')\<close> holds since \<^verbatim>\<open>__init__\<close>. The scan
  runs inside its own \<^verbatim>\<open>with self._lock\<close>, the teardown loop after it. \<^verbatim>\<open>//\<close> is floor
  division.
\<close>
definition force_cleanup_idle_connections :: "time \<Rightarrow> pool \<Rightarrow> unit outcome \<times> pool" where
  "force_cleanup_idle_connections current_time s =
     (if lock s then (Blocked, s)
      else
        (let s1 = s\<lparr>lock := True\<rparr>;
             clients_to_remove =
               map fst (filter (\<lambda>(client_id, lu).
                   current_time - lu > of_int (idle_timeout s1 div 2)) (last_used s1));
             s2 = s1\<lparr>lock := False\<rparr>
         in (Return (), foldl (\<lambda>t client_id. cleanup_client client_id t) s2 clients_to_remove)))"

text \<open>Lines 78 to 83 of \<^verbatim>\<open>get_client\<close>: count the use, stamp it, hand out the client.\<close>
definition use_client :: "time \<Rightarrow> key \<Rightarrow> pool \<Rightarrow> handle outcome \<times> pool" where
  "use_client current_time client_id s =
     (case map_of (connection_counts s) client_id of
        None \<Rightarrow> (Raise KeyError, s)
      | Some n \<Rightarrow>
          (let s1 = emit (CountWrite client_id (lock s))
                      (s\<lparr>connection_counts :=
                           AList.update client_id (n + 1) (connection_counts s)\<rparr>);
               s2 = s1\<lparr>last_used := AList.update client_id current_time (last_used s1)\<rparr>
           in case map_of (clients s2) client_id of
                None \<Rightarrow> (Raise KeyError, s2)
              | Some client \<Rightarrow> (Return client, s2)))"

text \<open>Lines 74 to 76: the three stores that admit a new client.\<close>
definition store_client :: "time \<Rightarrow> key \<Rightarrow> handle \<Rightarrow> pool \<Rightarrow> pool" where
  "store_client current_time client_id client s =
     emit (CountWrite client_id (lock s))
       (s\<lparr>clients := AList.update client_id client (clients s),
           connection_counts := AList.update client_id 0 (connection_counts s),
           client_created_time := AList.update client_id current_time (client_created_time s)\<rparr>)"

text \<open>
  \<^verbatim>\<open>get_client\<close>. \<open>current_time\<close> is the clock read on entry, \<open>fc_time\<close> the clock read by the
  pressure eviction if it runs, and \<open>created\<close> what \<^verbatim>\<open>_create_client()\<close> does if it is called:
  the new client, or the exception of the factory, which escapes to the caller.
\<close>
definition get_client ::
  "time \<Rightarrow> time \<Rightarrow> exn + handle \<Rightarrow> key \<Rightarrow> pool \<Rightarrow> handle outcome \<times> pool" where
  "get_client current_time fc_time created client_id s =
     (if lock s then (Blocked, s)
      else unlock
        (let s1 = s\<lparr>lock := True\<rparr>
         in case map_of (clients s1) client_id of
              Some _ \<Rightarrow> use_client current_time client_id s1
            | None \<Rightarrow>
                (case (if max_pool_size s1 \<le> int (length (clients s1))
                       then force_cleanup_idle_connections fc_time s1
                       else (Return (), s1)) of
                   (Blocked, s2) \<Rightarrow> (Blocked, s2)
                 | (Raise e, s2) \<Rightarrow> (Raise e, s2)
                 | (Return _, s2) \<Rightarrow>
                     (case created of
                        Inl e \<Rightarrow> (Raise e, s2)
                      | Inr client \<Rightarrow>
                          use_client current_time client_id
                            (store_client current_time client_id client s2)))))"

section \<open>The reclaimer: \<^verbatim>\<open>_periodic_cleanup\<close>\<close>

text \<open>The test of line 243, with the \<^verbatim>\<open>.get(client_id, current_time)\<close> default of line 236.\<close>
definition expired :: "pool \<Rightarrow> time \<Rightarrow> key \<times> time \<Rightarrow> bool" where
  "expired s current_time e =
     (case e of (client_id, lu) \<Rightarrow>
        (let created_time = (case map_of (client_created_time s) client_id of
                               None \<Rightarrow> current_time
                             | Some c \<Rightarrow> c)
         in current_time - lu > of_int (idle_timeout s)
            \<or> current_time - created_time > of_int (max_lifetime s)))"

text \<open>
  \<^verbatim>\<open>_log_stats\<close> only reads the dictionaries, twice inside \<^verbatim>\<open>with self._lock\<close>, and logs; its
  handler swallows every exception.
\<close>
definition log_stats :: "pool \<Rightarrow> unit outcome \<times> pool" where
  "log_stats s = (if lock s then (Blocked, s) else (Return (), s))"

text \<open>
  One pass of the body of the \<^verbatim>\<open>while\<close> loop. The marking is inside \<^verbatim>\<open>with self._lock\<close>
  (lines 234 to 246); the loop that calls \<^verbatim>\<open>_cleanup_client\<close> (lines 248 to 250) comes after
  the block has been left.
\<close>
definition reclaimer_scan :: "int \<Rightarrow> time \<Rightarrow> pool \<Rightarrow> unit outcome \<times> pool" where
  "reclaimer_scan interval current_time s =
     (if lock s then (Blocked, s)
      else
        (let s1 = s\<lparr>lock := True\<rparr>;
             clients_to_remove = map fst (filter (expired s1 current_time) (last_used s1));
             s2 = s1\<lparr>lock := False\<rparr>;
             s3 = foldl (\<lambda>t client_id. cleanup_client client_id t) s2 clients_to_remove
         in if interval \<ge> 60 then log_stats s3 else (Return (), s3)))"

text \<open>
  The loop \<^verbatim>\<open>while not self._stop_cleanup.wait(interval)\<close>, run over the wake-ups that
  happen: \<open>Some t\<close> is a time-out of the wait with the clock at \<open>t\<close>, \<open>None\<close> a wake-up by the
  stop event. With no wake-up left the thread is still parked in the wait.
\<close>
fun periodic_cleanup :: "int \<Rightarrow> time option list \<Rightarrow> pool \<Rightarrow> unit outcome \<times> pool" where
  "periodic_cleanup interval [] s = (if stop_cleanup s then (Return (), s) else (Blocked, s))"
| "periodic_cleanup interval (None # ws) s = (Return (), s)"
| "periodic_cleanup interval (Some t # ws) s =
     (if stop_cleanup s then (Return (), s)
      else case reclaimer_scan interval t s of
             (Blocked, s') \<Rightarrow> (Blocked, s')
           | (_, s') \<Rightarrow> periodic_cleanup interval ws s')"

section \<open>Starting and stopping the reclaimer\<close>

text \<open>\<^verbatim>\<open>interval or self.cleanup_interval\<close>: \<^verbatim>\<open>None\<close> and \<^verbatim>\<open>0\<close> both select the default.\<close>
definition start_periodic_cleanup :: "int option \<Rightarrow> pool \<Rightarrow> unit outcome \<times> pool" where
  "start_periodic_cleanup interval s =
     (case cleanup_thread s of
        Some (Thread True _) \<Rightarrow> (Return (), s)
      | _ \<Rightarrow>
          (let cleanup_interval' =
                 (case interval of
                    None \<Rightarrow> cleanup_interval s
                  | Some i \<Rightarrow> if i = 0 then cleanup_interval s else i)
           in (Return (), s\<lparr>stop_cleanup := False,
                             cleanup_thread := Some (Thread True cleanup_interval')\<rparr>)))"

text \<open>
  \<^verbatim>\<open>Thread.join(timeout)\<close> on a started thread other than the caller: it waits until the
  thread has ended or the time-out has passed, and returns. \<open>ends_after\<close> is the time the
  thread takes to end (\<open>None\<close>: it never ends); the result is the time waited and the thread
  afterwards.
\<close>
definition join :: "time \<Rightarrow> time option \<Rightarrow> thread \<Rightarrow> time \<times> thread" where
  "join timeout ends_after t =
     (if \<not> alive t then (0, t)
      else case ends_after of
             None \<Rightarrow> (timeout, t)
           | Some d \<Rightarrow>
               if d \<le> timeout then (max 0 d, Thread False (t_interval t)) else (timeout, t))"

text \<open>\<^verbatim>\<open>stop_periodic_cleanup\<close>, with the time it spent waiting in \<^verbatim>\<open>join(timeout=5)\<close>.\<close>
definition stop_periodic_cleanup :: "time option \<Rightarrow> pool \<Rightarrow> (unit outcome \<times> pool) \<times> time" where
  "stop_periodic_cleanup ends_after s =
     (let s1 = s\<lparr>stop_cleanup := True\<rparr>
      in case cleanup_thread s1 of
           None \<Rightarrow> ((Return (), s1), 0)
         | Some t \<Rightarrow>
             (case join 5 ends_after t of
                (waited, t') \<Rightarrow> ((Return (), s1\<lparr>cleanup_thread := Some t'\<rparr>), waited)))"

section \<open>The diagnostic query: \<^verbatim>\<open>get_connection_count\<close>\<close>

text \<open>
  The PostgreSQL driver is outside the repository. A server is modelled by what each call
  of the method does: \<^verbatim>\<open>psycopg2.connect\<close> raises or gives a connection, \<^verbatim>\<open>cursor()\<close>
  raises or gives a cursor, \<^verbatim>\<open>execute\<close> may raise, \<^verbatim>\<open>fetchone()\<close> raises or gives a row
  (a tuple, here of integers) or \<^verbatim>\<open>None\<close>, and both \<^verbatim>\<open>close()\<close> calls may raise.
\<close>
datatype cursor =
  Cursor (execute: "exn option") (fetchone: "exn + int list option") (cursor_close: "exn option")

datatype connection = Connection (cursor: "exn + cursor") (connection_close: "exn option")

type_synonym environ = "string \<rightharpoonup> string"

text \<open>Python truthiness of the result of \<^verbatim>\<open>os.getenv\<close>: \<^verbatim>\<open>None\<close> and \<^verbatim>\<open>''\<close> are false.\<close>
definition truthy :: "string option \<Rightarrow> bool" where
  "truthy v = (case v of None \<Rightarrow> False | Some x \<Rightarrow> x \<noteq> [])"

text \<open>The body of the \<^verbatim>\<open>try\<close> block, lines 168 to 186.\<close>
definition count_query :: "(string \<Rightarrow> exn + connection) \<Rightarrow> environ \<Rightarrow> exn + int" where
  "count_query connect env =
     (case env ''DATABASE_URL'' of
        None \<Rightarrow> Inr 0
      | Some database_url \<Rightarrow>
          if database_url = [] then Inr 0
          else
            (case connect database_url of
               Inl e \<Rightarrow> Inl e
             | Inr conn \<Rightarrow>
                 (case cursor conn of
                    Inl e \<Rightarrow> Inl e
                  | Inr cur \<Rightarrow>
                      (case execute cur of
                         Some e \<Rightarrow> Inl e
                       | None \<Rightarrow>
                           (case fetchone cur of
                              Inl e \<Rightarrow> Inl e
                            | Inr None \<Rightarrow> Inl TypeError
                            | Inr (Some []) \<Rightarrow> Inl IndexError
                            | Inr (Some (count # _)) \<Rightarrow>
                                (case cursor_close cur of
                                   Some e \<Rightarrow> Inl e
                                 | None \<Rightarrow>
                                     (case connection_close conn of
                                        Some e \<Rightarrow> Inl e
                                      | None \<Rightarrow> Inr count)))))))"

text \<open>The handler \<^verbatim>\<open>except Exception\<close> logs and returns \<^verbatim>\<open>-1\<close>.\<close>
definition get_connection_count :: "(string \<Rightarrow> exn + connection) \<Rightarrow> environ \<Rightarrow> int outcome" where
  "get_connection_count connect env =
     (case count_query connect env of
        Inl e \<Rightarrow> Return (- 1)
      | Inr count \<Rightarrow> Return count)"

section \<open>The client factory: \<^verbatim>\<open>get_mem0_client\<close> of \<^verbatim>\<open>src/utils.py\<close>\<close>

text \<open>The configuration dictionary that is handed to \<^verbatim>\<open>Memory.from_config\<close>.\<close>
datatype pyval = PNone | PStr string | PInt int | PNum rat | PDict "(string \<times> pyval) list"

definition opt_str :: "string option \<Rightarrow> pyval" where
  "opt_str v = (case v of None \<Rightarrow> PNone | Some x \<Rightarrow> PStr x)"

text \<open>\<^verbatim>\<open>v or d\<close> for a string or \<^verbatim>\<open>None\<close>.\<close>
definition str_or :: "string option \<Rightarrow> string \<Rightarrow> string" where
  "str_or v d = (case v of None \<Rightarrow> d | Some x \<Rightarrow> if x = [] then d else x)"

text \<open>Adds \<^verbatim>\<open>cfg[name] = os.getenv('LLM_BASE_URL')\<close> when the variable is truthy.\<close>
definition with_base_url :: "string \<Rightarrow> environ \<Rightarrow> (string \<times> pyval) list \<Rightarrow> (string \<times> pyval) list" where
  "with_base_url name env cfg =
     (case env ''LLM_BASE_URL'' of
        None \<Rightarrow> cfg
      | Some url \<Rightarrow> if url = [] then cfg else AList.update name (PStr url) cfg)"

text \<open>\<^verbatim>\<open>if llm_api_key and not os.environ.get("OPENAI_API_KEY")\<close>, then the store.\<close>
definition set_openai_key :: "environ \<Rightarrow> environ" where
  "set_openai_key env =
     (case env ''LLM_API_KEY'' of
        None \<Rightarrow> env
      | Some llm_api_key \<Rightarrow>
          if llm_api_key \<noteq> [] \<and> \<not> truthy (env ''OPENAI_API_KEY'')
          then env(''OPENAI_API_KEY'' \<mapsto> llm_api_key) else env)"

definition llm_options :: "environ \<Rightarrow> (string \<times> pyval) list" where
  "llm_options env =
     [(''model'', opt_str (env ''LLM_CHOICE'')), (''temperature'', PNum (2 / 10)),
      (''max_tokens'', PInt 2000)]"

text \<open>
  Lines 19 to 68: the \<^verbatim>\<open>llm\<close> entry, and the API keys written to \<^verbatim>\<open>os.environ\<close>. The five
  variables read on lines 19 to 23 are not assigned by the function, so reading them
  later from the environment gives the same values.
\<close>
definition llm_section :: "environ \<Rightarrow> (string \<times> pyval) list \<times> environ" where
  "llm_section env =
     (let llm_provider = env ''LLM_PROVIDER''
      in if llm_provider = Some ''openai'' \<or> llm_provider = Some ''openrouter'' then
           (let config = [(''llm'', PDict [(''provider'', PStr ''openai''),
                             (''config'', PDict (with_base_url ''openai_base_url'' env
                                                   (llm_options env)))])];
                env1 = set_openai_key env;
                env2 = (case env1 ''LLM_API_KEY'' of
                          None \<Rightarrow> env1
                        | Some llm_api_key \<Rightarrow>
                            if llm_provider = Some ''openrouter'' \<and> llm_api_key \<noteq> []
                            then env1(''OPENROUTER_API_KEY'' \<mapsto> llm_api_key) else env1)
            in (config, env2))
         else if llm_provider = Some ''ollama'' then
           ([(''llm'', PDict [(''provider'', PStr ''ollama''),
                (''config'', PDict (with_base_url ''ollama_base_url'' env (llm_options env)))])],
            env)
         else ([], env))"

text \<open>
  \<^verbatim>\<open>int(embedding_dims) if embedding_dims else default_dims\<close>. The builtin \<^verbatim>\<open>int\<close> is the
  parameter \<open>py_int\<close>; it gives \<open>None\<close> where Python raises \<^verbatim>\<open>ValueError\<close>.
\<close>
definition dims :: "(string \<Rightarrow> int option) \<Rightarrow> string option \<Rightarrow> int \<Rightarrow> exn + int" where
  "dims py_int embedding_dims default_dims =
     (case embedding_dims of
        None \<Rightarrow> Inr default_dims
      | Some x \<Rightarrow>
          if x = [] then Inr default_dims
          else (case py_int x of None \<Rightarrow> Inl ValueError | Some n \<Rightarrow> Inr n))"

text \<open>Lines 70 to 116: the \<^verbatim>\<open>embedder\<close> entry.\<close>
definition embedder_section ::
  "(string \<Rightarrow> int option) \<Rightarrow> (string \<times> pyval) list \<times> environ
     \<Rightarrow> exn + (string \<times> pyval) list \<times> environ" where
  "embedder_section py_int ce =
     (case ce of (config, env) \<Rightarrow>
       (let llm_provider = env ''LLM_PROVIDER'';
            embedding_model = env ''EMBEDDING_MODEL_CHOICE''
        in if llm_provider = Some ''openai'' then
             (let default_dims =
                    (if embedding_model = Some ''text-embedding-3-large'' then 3072
                     else if embedding_model = Some ''text-embedding-ada-002'' then 1536
                     else 1536)
              in case dims py_int (env ''EMBEDDING_DIMS'') default_dims of
                   Inl e \<Rightarrow> Inl e
                 | Inr n \<Rightarrow>
                     Inr (AList.update ''embedder''
                            (PDict [(''provider'', PStr ''openai''),
                               (''config'', PDict (with_base_url ''openai_base_url'' env
                                  [(''model'', PStr (str_or embedding_model
                                                       ''text-embedding-3-small'')),
                                   (''embedding_dims'', PInt n)]))]) config,
                          set_openai_key env))
           else if llm_provider = Some ''ollama'' then
             (let default_dims =
                    (if truthy embedding_model
                        \<and> sublist ''nomic-embed-text'' (str_or embedding_model []) then 768
                     else if truthy embedding_model
                        \<and> sublist ''all-minilm'' (str_or embedding_model []) then 384
                     else 768)
              in case dims py_int (env ''EMBEDDING_DIMS'') default_dims of
                   Inl e \<Rightarrow> Inl e
                 | Inr n \<Rightarrow>
                     Inr (AList.update ''embedder''
                            (PDict [(''provider'', PStr ''ollama''),
                               (''config'', PDict (with_base_url ''ollama_base_url'' env
                                  [(''model'', PStr (str_or embedding_model
                                                       ''nomic-embed-text'')),
                                   (''embedding_dims'', PInt n)]))]) config,
                          env))
           else Inr (config, env)))"

text \<open>\<^verbatim>\<open>d.get(k, {})\<close> followed by another \<^verbatim>\<open>.get\<close>: a missing key gives the empty dictionary.\<close>
definition sub_dict :: "string \<Rightarrow> (string \<times> pyval) list \<Rightarrow> (string \<times> pyval) list" where
  "sub_dict k d = (case map_of d k of Some (PDict d') \<Rightarrow> d' | _ \<Rightarrow> [])"

text \<open>Lines 118 to 129: the \<^verbatim>\<open>vector_store\<close> entry, with \<^verbatim>\<open>os.environ.get('DATABASE_URL', '')\<close>.\<close>
definition vector_section :: "environ \<Rightarrow> (string \<times> pyval) list \<Rightarrow> (string \<times> pyval) list" where
  "vector_section env config =
     (let embedder_dims =
            (case map_of (sub_dict ''config'' (sub_dict ''embedder'' config)) ''embedding_dims'' of
               None \<Rightarrow> PInt 1536
             | Some v \<Rightarrow> v)
      in AList.update ''vector_store''
           (PDict [(''provider'', PStr ''supabase''),
              (''config'', PDict
                 [(''connection_string'',
                     PStr (case env ''DATABASE_URL'' of None \<Rightarrow> [] | Some url \<Rightarrow> url)),
                  (''collection_name'', PStr ''mem0_memories''),
                  (''embedding_model_dims'', embedder_dims)])]) config)"

text \<open>
  \<^verbatim>\<open>get_mem0_client\<close>. \<open>from_config\<close> is \<^verbatim>\<open>Memory.from_config\<close> of the external library:
  it returns a client or raises. The result is the outcome and the process environment
  afterwards.
\<close>
definition get_mem0_client ::
  "(string \<Rightarrow> int option) \<Rightarrow> ((string \<times> pyval) list \<Rightarrow> exn + handle) \<Rightarrow> environ
     \<Rightarrow> (exn + handle) \<times> environ" where
  "get_mem0_client py_int from_config env =
     (case llm_section env of
        (config1, env1) \<Rightarrow>
          (case embedder_section py_int (config1, env1) of
             Inl e \<Rightarrow> (Inl e, env1)
           | Inr (config2, env2) \<Rightarrow> (from_config (vector_section env2 config2), env2)))"

text \<open>The connection string inside a finished configuration.\<close>
definition connection_string :: "(string \<times> pyval) list \<Rightarrow> pyval option" where
  "connection_string config =
     map_of (sub_dict ''config'' (sub_dict ''vector_store'' config)) ''connection_string''"

section \<open>Vocabulary for the properties\<close>

text \<open>The keys of a dictionary.\<close>
definition keys :: "('k \<times> 'v) list \<Rightarrow> 'k set" where
  "keys d = fst ` set d"

text \<open>Neither close step of the teardown of this client raises.\<close>
definition tears_down :: "handle \<Rightarrow> bool" where
  "tears_down h = (vector_step h \<noteq> Some Raises \<and> db_step h \<noteq> Some Raises)"

text \<open>
  \<^verbatim>\<open>_cleanup_client(client_id)\<close> reaches its \<^verbatim>\<open>del\<close> statements: the key has a client, and
  no close step of that client raises.
\<close>
definition removes :: "key \<Rightarrow> pool \<Rightarrow> bool" where
  "removes client_id s =
     (case map_of (clients s) client_id of None \<Rightarrow> False | Some client \<Rightarrow> tears_down client)"

text \<open>The four per-key dictionaries have the same keys.\<close>
definition same_keys :: "pool \<Rightarrow> bool" where
  "same_keys s =
     (keys (clients s) = keys (connection_counts s)
      \<and> keys (connection_counts s) = keys (last_used s)
      \<and> keys (last_used s) = keys (client_created_time s))"

text \<open>Every pooled client has a last-used and a created time.\<close>
definition stamped :: "pool \<Rightarrow> bool" where
  "stamped s = (keys (clients s) \<subseteq> keys (last_used s) \<inter> keys (client_created_time s))"

text \<open>
  The stores and deletions in a trace that were made without the lock: the \<open>DelClient\<close> and
  \<open>CountWrite\<close> events whose flag is \<open>False\<close>.
\<close>
definition unlocked_writes :: "event list \<Rightarrow> event list" where
  "unlocked_writes tr =
     filter (\<lambda>e. case e of DelClient _ l \<Rightarrow> \<not> l | CountWrite _ l \<Rightarrow> \<not> l | _ \<Rightarrow> False) tr"

text \<open>
  The operations that touch the dictionaries, as one thread after the other performs them,
  and the state after a sequence of them.
\<close>
datatype op = Get time time "exn + handle" key | Release key | CleanupAll | Scan int time

fun step :: "op \<Rightarrow> pool \<Rightarrow> pool" where
  "step (Get current_time fc_time created client_id) s =
     snd (get_client current_time fc_time created client_id s)"
| "step (Release client_id) s = snd (release_client client_id s)"
| "step CleanupAll s = snd (cleanup_all s)"
| "step (Scan interval current_time) s = snd (reclaimer_scan interval current_time s)"

definition run :: "op list \<Rightarrow> pool \<Rightarrow> pool" where
  "run ops s = foldl (\<lambda>t x. step x t) s ops"

subsection \<open>Concrete inputs\<close>

text \<open>A client whose vector store and database connection both close without error.\<close>
definition plain_client :: "nat \<Rightarrow> handle" where
  "plain_client n =
     Handle n (Some (VectorStore (Some (VectorClient (Some Returns) None))))
       (Some (Database (Some Returns) None))"

text \<open>A client whose \<^verbatim>\<open>vector_store.client.close()\<close> raises; its database connection is sound.\<close>
definition failing_client :: "nat \<Rightarrow> handle" where
  "failing_client n =
     Handle n (Some (VectorStore (Some (VectorClient (Some Raises) None))))
       (Some (Database (Some Returns) None))"

text \<open>\<^verbatim>\<open>ConnectionManager(max_pool_size=2, idle_timeout=100, max_lifetime=1000)\<close>.\<close>
definition scenario_pool :: pool where
  "scenario_pool = new_manager 2 300 100 1000"

text \<open>A database server that refuses every connection.\<close>
definition refusing_server :: "string \<Rightarrow> exn + connection" where
  "refusing_server url = Inl (LibraryError ''OperationalError'')"

definition database_env :: environ where
  "database_env = [''DATABASE_URL'' \<mapsto> ''postgresql://localhost/mem0'']"

text \<open>A library whose \<^verbatim>\<open>Memory.from_config\<close> accepts every configuration.\<close>
definition lenient_from_config :: "(string \<times> pyval) list \<Rightarrow> exn + handle" where
  "lenient_from_config config = Inr (Handle 0 None None)"

text \<open>
  \<^verbatim>\<open>int\<close> on strings that are not numerals, such as \<^verbatim>\<open>'abc'\<close>: it raises \<^verbatim>\<open>ValueError\<close>.
\<close>
definition rejecting_int :: "string \<Rightarrow> int option" where
  "rejecting_int x = None"

text \<open>An environment with a provider and malformed dimensions, and without \<^verbatim>\<open>DATABASE_URL\<close>.\<close>
definition malformed_env :: environ where
  "malformed_env = [''LLM_PROVIDER'' \<mapsto> ''openai'', ''EMBEDDING_DIMS'' \<mapsto> ''abc'']"

section \<open>Basic facts\<close>

lemma trace_emit: "trace (emit e s) = trace s @ [e]"
  by (simp add: emit_def)

lemma emit_fields [simp]:
  "clients (emit e s) = clients s"
  "connection_counts (emit e s) = connection_counts s"
  "last_used (emit e s) = last_used s"
  "client_created_time (emit e s) = client_created_time s"
  "lock (emit e s) = lock s"
  "max_pool_size (emit e s) = max_pool_size s"
  "idle_timeout (emit e s) = idle_timeout s"
  "max_lifetime (emit e s) = max_lifetime s"
  by (simp_all add: emit_def)

lemma keys_update: "keys (AList.update k v d) = insert k (keys d)"
  by (simp add: keys_def AList.dom_update)

lemma keys_delete: "keys (AList.delete k d) = keys d - {k}"
  by (auto simp: keys_def AList.delete_eq)

lemma keys_map_of: "(k \<in> keys d) = (map_of d k \<noteq> None)"
  by (simp add: keys_def map_of_eq_None_iff)

lemmas eval_defs = get_client_def use_client_def store_client_def unlock_def emit_def
  new_manager_def force_cleanup_idle_connections_def release_client_def cleanup_client_def
  drop_entry_def vector_step_def db_step_def cleanup_all_def reclaimer_scan_def expired_def
  log_stats_def plain_client_def failing_client_def scenario_pool_def run_def Let_def

section \<open>What \<^verbatim>\<open>_cleanup_client\<close> changes\<close>

lemma drop_entry_fields [simp]:
  "clients (drop_entry k s) = AList.delete k (clients s)"
  "connection_counts (drop_entry k s) = AList.delete k (connection_counts s)"
  "last_used (drop_entry k s) = last_used s"
  "client_created_time (drop_entry k s) = client_created_time s"
  "lock (drop_entry k s) = lock s"
  "max_pool_size (drop_entry k s) = max_pool_size s"
  "idle_timeout (drop_entry k s) = idle_timeout s"
  "max_lifetime (drop_entry k s) = max_lifetime s"
  by (simp_all add: drop_entry_def Let_def AList.delete_id map_of_eq_None_iff split: option.split)

lemma cleanup_client_clients:
  "clients (cleanup_client k s) = (if removes k s then AList.delete k (clients s) else clients s)"
  by (auto simp: cleanup_client_def removes_def tears_down_def Let_def split: option.split)

lemma cleanup_client_counts:
  "connection_counts (cleanup_client k s) =
     (if removes k s then AList.delete k (connection_counts s) else connection_counts s)"
  by (auto simp: cleanup_client_def removes_def tears_down_def Let_def split: option.split)

lemma cleanup_client_frame [simp]:
  "last_used (cleanup_client k s) = last_used s"
  "client_created_time (cleanup_client k s) = client_created_time s"
  "lock (cleanup_client k s) = lock s"
  "max_pool_size (cleanup_client k s) = max_pool_size s"
  "idle_timeout (cleanup_client k s) = idle_timeout s"
  "max_lifetime (cleanup_client k s) = max_lifetime s"
  by (auto simp: cleanup_client_def Let_def split: option.split)

lemma cleanup_list_frame [simp]:
  "last_used (foldl (\<lambda>t k. cleanup_client k t) s ks) = last_used s"
  "client_created_time (foldl (\<lambda>t k. cleanup_client k t) s ks) = client_created_time s"
  "lock (foldl (\<lambda>t k. cleanup_client k t) s ks) = lock s"
  "max_pool_size (foldl (\<lambda>t k. cleanup_client k t) s ks) = max_pool_size s"
  "idle_timeout (foldl (\<lambda>t k. cleanup_client k t) s ks) = idle_timeout s"
  "max_lifetime (foldl (\<lambda>t k. cleanup_client k t) s ks) = max_lifetime s"
  by (induction ks arbitrary: s; simp)+

lemma cleanup_client_lookup:
  "map_of (clients (cleanup_client k' s)) k =
     (if k = k' \<and> removes k s then None else map_of (clients s) k)"
  by (auto simp: cleanup_client_clients AList.delete_conv')

lemma removes_cleanup_client:
  "removes k (cleanup_client k' s) = (removes k s \<and> k \<noteq> k')"
  by (auto simp: removes_def cleanup_client_lookup split: option.split)

text \<open>After a teardown loop, exactly the listed keys whose teardown completes are gone.\<close>
lemma cleanup_list_lookup:
  "map_of (clients (foldl (\<lambda>t k. cleanup_client k t) s ks)) k =
     (if k \<in> set ks \<and> removes k s then None else map_of (clients s) k)"
proof (induction ks arbitrary: s)
  case Nil
  then show ?case by simp
next
  case (Cons k' ks)
  show ?case
    by (auto simp: Cons.IH cleanup_client_lookup removes_cleanup_client removes_def)
qed

lemma cleanup_client_keys: "keys (clients (cleanup_client k s)) \<subseteq> keys (clients s)"
  by (auto simp: cleanup_client_clients keys_delete)

lemma cleanup_list_keys:
  "keys (clients (foldl (\<lambda>t k. cleanup_client k t) s ks)) \<subseteq> keys (clients s)"
proof (induction ks arbitrary: s)
  case Nil
  show ?case by simp
next
  case (Cons k ks)
  from Cons.IH [of "cleanup_client k s"] cleanup_client_keys [of k s] show ?case by auto
qed

section \<open>\<^verbatim>\<open>get_client\<close>, case by case\<close>

lemma store_client_fields [simp]:
  "clients (store_client t k h s) = AList.update k h (clients s)"
  "connection_counts (store_client t k h s) = AList.update k 0 (connection_counts s)"
  "client_created_time (store_client t k h s) = AList.update k t (client_created_time s)"
  "last_used (store_client t k h s) = last_used s"
  "lock (store_client t k h s) = lock s"
  by (simp_all add: store_client_def)

text \<open>
  The pressure eviction is only ever called by \<^verbatim>\<open>get_client\<close>, inside its
  \<^verbatim>\<open>with self._lock\<close>, and starts by taking the same lock. So the branch for a full pool
  never gets past it.
\<close>
lemma get_client_cases:
  "get_client t fc created k s =
     (if lock s then (Blocked, s)
      else case map_of (clients s) k of
             Some _ \<Rightarrow> unlock (use_client t k (s\<lparr>lock := True\<rparr>))
           | None \<Rightarrow>
               if max_pool_size s \<le> int (length (clients s)) then (Blocked, s\<lparr>lock := True\<rparr>)
               else case created of
                      Inl e \<Rightarrow> (Raise e, s\<lparr>lock := False\<rparr>)
                    | Inr h \<Rightarrow> unlock (use_client t k (store_client t k h (s\<lparr>lock := True\<rparr>))))"
  by (simp add: get_client_def force_cleanup_idle_connections_def unlock_def
      split: option.split sum.split)

lemma get_client_full_blocks:
  assumes "\<not> lock s" "map_of (clients s) k = None" "max_pool_size s \<le> int (length (clients s))"
  shows "get_client t fc created k s = (Blocked, s\<lparr>lock := True\<rparr>)"
  using assms by (simp add: get_client_cases)

lemma snd_unlock_fields:
  "last_used (snd (unlock r)) = last_used (snd r)"
  "client_created_time (snd (unlock r)) = client_created_time (snd r)"
  "clients (snd (unlock r)) = clients (snd r)"
  "connection_counts (snd (unlock r)) = connection_counts (snd r)"
  "trace (snd (unlock r)) = trace (snd r)"
  by (cases r; cases "fst r"; simp add: unlock_def)+

lemma use_client_keys:
  "keys (last_used s) \<subseteq> keys (last_used (snd (use_client t k s)))"
  "client_created_time (snd (use_client t k s)) = client_created_time s"
  by (auto simp: use_client_def Let_def keys_update split: option.split)

lemma use_client_clients: "clients (snd (use_client t k s)) = clients s"
  by (simp add: use_client_def Let_def split: option.split)

lemma use_client_last_used:
  "map_of (connection_counts s) k \<noteq> None \<Longrightarrow>
     last_used (snd (use_client t k s)) = AList.update k t (last_used s)"
  by (auto simp: use_client_def Let_def split: option.split)

section \<open>The diagnostic query never raises\<close>

lemma count_query_refused:
  "env ''DATABASE_URL'' = Some url \<Longrightarrow> url \<noteq> [] \<Longrightarrow> connect url = Inl e
     \<Longrightarrow> get_connection_count connect env = Return (- 1)"
  by (simp add: get_connection_count_def count_query_def)

lemma count_query_no_row:
  "env ''DATABASE_URL'' = Some url \<Longrightarrow> url \<noteq> [] \<Longrightarrow> connect url = Inr conn
     \<Longrightarrow> cursor conn = Inr cur \<Longrightarrow> execute cur = None \<Longrightarrow> fetchone cur = Inr None
     \<Longrightarrow> get_connection_count connect env = Return (- 1)"
  by (simp add: get_connection_count_def count_query_def)

text \<open>
  Claim C9. \<^verbatim>\<open>get_connection_count\<close> never raises to its caller: whatever the database
  driver does, the call returns an integer, and whenever a step of the query fails (the
  body of the \<^verbatim>\<open>try\<close> block ends in an exception \<open>e\<close>) the integer is the sentinel \<open>-1\<close>.
\<close>
theorem get_connection_count_never_raises:
  "(\<exists>n. get_connection_count connect env = Return n)
   \<and> (\<forall>e. count_query connect env = Inl e \<longrightarrow> get_connection_count connect env = Return (- 1))"
  by (auto simp: get_connection_count_def split: sum.split)

theorem get_connection_count_never_raises_witness:
  "count_query refusing_server database_env = Inl (LibraryError ''OperationalError'')
   \<and> get_connection_count refusing_server database_env = Return (- 1)"
proof -
  have q: "count_query refusing_server database_env = Inl (LibraryError ''OperationalError'')"
    by (simp add: count_query_def refusing_server_def database_env_def)
  with get_connection_count_never_raises [of refusing_server database_env] show ?thesis
    by blast
qed

section \<open>Stopping a reclaimer that was never started\<close>

text \<open>
  Claim C10. \<^verbatim>\<open>stop_periodic_cleanup\<close> returns without raising and waits at most the five
  seconds of its \<^verbatim>\<open>join\<close>, whatever the state of the reclaimer thread. When the reclaimer
  was never started (\<open>cleanup_thread\<close> is \<open>None\<close>) it only sets the stop event and does not
  wait at all, and calling it again gives the same state again.
\<close>
theorem stop_periodic_cleanup_never_started:
  "fst (fst (stop_periodic_cleanup e s)) = Return ()
   \<and> 0 \<le> snd (stop_periodic_cleanup e s) \<and> snd (stop_periodic_cleanup e s) \<le> 5
   \<and> (cleanup_thread s = None \<longrightarrow>
        stop_periodic_cleanup e s = ((Return (), s\<lparr>stop_cleanup := True\<rparr>), 0)
        \<and> stop_periodic_cleanup e' (snd (fst (stop_periodic_cleanup e s)))
            = ((Return (), s\<lparr>stop_cleanup := True\<rparr>), 0))"
  by (auto simp: stop_periodic_cleanup_def join_def Let_def split: option.split prod.split)

theorem stop_periodic_cleanup_never_started_witness:
  "cleanup_thread default_manager = None
   \<and> stop_periodic_cleanup None default_manager
       = ((Return (), default_manager\<lparr>stop_cleanup := True\<rparr>), 0)
   \<and> stop_periodic_cleanup None (snd (fst (stop_periodic_cleanup None default_manager)))
       = ((Return (), default_manager\<lparr>stop_cleanup := True\<rparr>), 0)"
proof -
  have n: "cleanup_thread default_manager = None"
    by (simp add: default_manager_def new_manager_def)
  with stop_periodic_cleanup_never_started [of None default_manager None] show ?thesis
    by blast
qed

section \<open>Acquiring on a full pool\<close>

text \<open>
  Claim C1 says that \<^verbatim>\<open>get_client\<close> for an absent key on a full pool completes without
  blocking: it tries the pressure eviction and then admits the new client. The code does
  not: \<^verbatim>\<open>get_client\<close> calls \<^verbatim>\<open>_force_cleanup_idle_connections\<close> while it holds
  \<^verbatim>\<open>self._lock\<close>, and that method waits for the same non-reentrant lock
  (\<open>get_client_full_blocks\<close>). In the scenario of the specification, a pool of size 2 that
  holds \<^verbatim>\<open>a\<close> and \<^verbatim>\<open>b\<close>, the call for \<^verbatim>\<open>c\<close> never returns, the lock stays taken and no
  third client is stored.
\<close>
theorem get_client_on_full_pool_blocks:
  "fst (get_client 2 2 (Inr (plain_client 3)) ''c''
          (run [Get 0 0 (Inr (plain_client 1)) ''a'', Get 1 1 (Inr (plain_client 2)) ''b'']
             scenario_pool)) = Blocked
   \<and> lock (snd (get_client 2 2 (Inr (plain_client 3)) ''c''
          (run [Get 0 0 (Inr (plain_client 1)) ''a'', Get 1 1 (Inr (plain_client 2)) ''b'']
             scenario_pool)))
   \<and> map fst (clients (snd (get_client 2 2 (Inr (plain_client 3)) ''c''
          (run [Get 0 0 (Inr (plain_client 1)) ''a'', Get 1 1 (Inr (plain_client 2)) ''b'']
             scenario_pool)))) = [''a'', ''b'']"
  by (simp add: eval_defs)

text \<open>Below its capacity the pool admits a new key and hands out the new client.\<close>
lemma get_client_admits:
  assumes "\<not> lock s" "map_of (clients s) k = None"
    "int (length (clients s)) < max_pool_size s"
  shows "fst (get_client t fc (Inr h) k s) = Return h"
    and "map_of (clients (snd (get_client t fc (Inr h) k s))) k = Some h"
    and "map_of (connection_counts (snd (get_client t fc (Inr h) k s))) k = Some 1"
    and "\<not> lock (snd (get_client t fc (Inr h) k s))"
  using assms
  by (simp_all add: get_client_cases unlock_def use_client_def store_client_def emit_def
      Let_def AList.update_conv')

section \<open>Teardown when a close step raises\<close>

text \<open>When no close step raises, \<^verbatim>\<open>cleanup_all\<close> empties the pool.\<close>
lemma cleanup_all_clears:
  assumes "\<not> lock s" "\<forall>k \<in> keys (clients s). removes k s"
  shows "clients (snd (cleanup_all s)) = []"
proof -
  have "map_of (clients (snd (cleanup_all s))) k = None" for k
  proof (cases "k \<in> keys (clients s)")
    case True
    with assms(2) have "removes k (s\<lparr>lock := True\<rparr>)" by (simp add: removes_def)
    moreover from True have "k \<in> set (map fst (clients s))" by (simp add: keys_def)
    ultimately show ?thesis
      using assms(1) by (simp add: cleanup_all_def Let_def cleanup_list_lookup)
  next
    case False
    then have "map_of (clients s) k = None" by (simp add: keys_map_of)
    then show ?thesis
      using assms(1) by (simp add: cleanup_all_def Let_def cleanup_list_lookup)
  qed
  then have "map_of (clients (snd (cleanup_all s))) = Map.empty" by (simp add: fun_eq_iff)
  then show ?thesis by simp
qed

lemma teardown_count_cleanup_client:
  "count_list (trace (cleanup_client k' s)) (Teardown k) =
     count_list (trace s) (Teardown k) + (if k = k' \<and> map_of (clients s) k \<noteq> None then 1 else 0)"
  by (auto simp: cleanup_client_def drop_entry_def emit_def Let_def
      split: option.split call.split)

lemma teardown_count_cleanup_list:
  "distinct ks \<Longrightarrow>
     count_list (trace (foldl (\<lambda>t k. cleanup_client k t) s ks)) (Teardown k) =
       count_list (trace s) (Teardown k)
         + (if k \<in> set ks \<and> map_of (clients s) k \<noteq> None then 1 else 0)"
proof (induction ks arbitrary: s)
  case Nil
  then show ?case by simp
next
  case (Cons k' ks)
  then have d: "distinct ks" "k' \<notin> set ks" by simp_all
  show ?case
    using d(2)
    by (auto simp: Cons.IH [OF d(1)] teardown_count_cleanup_client cleanup_client_lookup)
qed

text \<open>
  \<^verbatim>\<open>cleanup_all\<close> starts the teardown of every pooled client exactly once, whether or not
  its close steps raise. The keys of a dictionary are distinct.
\<close>
lemma cleanup_all_teardown_once:
  assumes "\<not> lock s" "distinct (map fst (clients s))" "k \<in> keys (clients s)"
  shows "count_list (trace (snd (cleanup_all s))) (Teardown k)
           = count_list (trace s) (Teardown k) + 1"
proof -
  from assms(3) have "map_of (clients s) k \<noteq> None"
    by (simp add: keys_map_of)
  moreover from assms(3) have "k \<in> set (map fst (clients s))"
    by (simp add: keys_def)
  ultimately show ?thesis
    using assms(1,2)
    by (simp add: cleanup_all_def Let_def teardown_count_cleanup_list)
qed

text \<open>
  Claim C2 says that a close step that raises prevents neither the next close step nor the
  removal of the entry, so that the pool is empty after \<^verbatim>\<open>cleanup_all\<close>. The code has both
  close steps and both \<^verbatim>\<open>del\<close> statements in one \<^verbatim>\<open>try\<close> block. For a pool whose only
  client raises in \<^verbatim>\<open>vector_store.client.close()\<close>, \<^verbatim>\<open>cleanup_all\<close> starts the teardown once,
  makes the vector close call, never calls \<^verbatim>\<open>db.connection.close()\<close>, deletes nothing and
  leaves the client in the pool.
\<close>
theorem cleanup_all_keeps_client_whose_close_raises:
  "cleanup_all (run [Get 0 0 (Inr (failing_client 1)) ''a''] scenario_pool)
   = (Return (),
      scenario_pool\<lparr>clients := [(''a'', failing_client 1)], connection_counts := [(''a'', 1)],
        last_used := [(''a'', 0)], client_created_time := [(''a'', 0)],
        trace := [CountWrite ''a'' True, CountWrite ''a'' True,
                  Teardown ''a'', VectorClose ''a'' Raises]\<rparr>)"
  by (simp add: eval_defs)

section \<open>Which writes happen under the lock\<close>

lemma unlocked_writes_emit:
  "unlocked_writes (trace (emit e s)) =
     unlocked_writes (trace s)
       @ (case e of DelClient _ l \<Rightarrow> if l then [] else [e]
          | CountWrite _ l \<Rightarrow> if l then [] else [e] | _ \<Rightarrow> [])"
  by (simp add: unlocked_writes_def emit_def split: event.split)

lemma cleanup_client_locked:
  "lock s \<Longrightarrow> unlocked_writes (trace (cleanup_client k s)) = unlocked_writes (trace s)"
  by (simp add: cleanup_client_def drop_entry_def Let_def unlocked_writes_emit
      split: option.split call.split)

lemma cleanup_list_locked:
  "lock s \<Longrightarrow>
     unlocked_writes (trace (foldl (\<lambda>t k. cleanup_client k t) s ks)) = unlocked_writes (trace s)"
  by (induction ks arbitrary: s) (simp_all add: cleanup_client_locked)

text \<open>
  \<^verbatim>\<open>release_client\<close>, \<^verbatim>\<open>cleanup_all\<close> and \<^verbatim>\<open>get_client\<close> make every store to the reference
  counts and every deletion inside their \<^verbatim>\<open>with self._lock\<close>.
\<close>
lemma release_client_locked:
  "unlocked_writes (trace (snd (release_client k s))) = unlocked_writes (trace s)"
  by (simp add: release_client_def Let_def cleanup_client_locked unlocked_writes_emit
      split: option.split)

lemma cleanup_all_locked:
  "unlocked_writes (trace (snd (cleanup_all s))) = unlocked_writes (trace s)"
  by (simp add: cleanup_all_def Let_def cleanup_list_locked)

lemma use_client_locked:
  "lock s \<Longrightarrow> unlocked_writes (trace (snd (use_client t k s))) = unlocked_writes (trace s)"
  by (simp add: use_client_def Let_def unlocked_writes_emit split: option.split)

lemma get_client_locked:
  "unlocked_writes (trace (snd (get_client t fc created k s))) = unlocked_writes (trace s)"
  by (simp add: get_client_cases snd_unlock_fields use_client_locked store_client_def
      unlocked_writes_emit split: option.split sum.split)

text \<open>
  Claim C3 says that every mutation of a reference count and every removal from the pool
  happens while the lock is held, the eviction by the reclaimer included. In
  \<^verbatim>\<open>_periodic_cleanup\<close> only the marking is inside \<^verbatim>\<open>with self._lock\<close>; the calls of
  \<^verbatim>\<open>_cleanup_client\<close> come after the block. One scan at time 2000 over a pool that acquired
  \<^verbatim>\<open>a\<close> at time 0 deletes the client and its reference count without the lock.
\<close>
theorem reclaimer_scan_deletes_without_lock:
  "unlocked_writes (trace (snd (reclaimer_scan 300 2000
      (run [Get 0 0 (Inr (plain_client 1)) ''a''] scenario_pool))))
   = [DelClient ''a'' False, CountWrite ''a'' False]"
  by (simp add: eval_defs unlocked_writes_def)

section \<open>The reclaimer scan\<close>

text \<open>
  A scan evicts every expired entry whose teardown completes. The reference count does
  not occur among the assumptions: it plays no part.
\<close>
lemma scan_evicts_expired:
  assumes "\<not> lock s" "(k, lu) \<in> set (last_used s)" "expired s t (k, lu)" "removes k s"
  shows "map_of (clients (snd (reclaimer_scan i t s))) k = None"
proof -
  have e: "expired (s\<lparr>lock := True\<rparr>) t (k, lu)"
    using assms(3) by (simp add: expired_def)
  have "k \<in> set (map fst (filter (expired (s\<lparr>lock := True\<rparr>) t) (last_used s)))"
    using assms(2) e by force
  moreover have "removes k (s\<lparr>lock := False\<rparr>)"
    using assms(4) by (simp add: removes_def)
  ultimately show ?thesis
    using assms(1) by (simp add: reclaimer_scan_def log_stats_def Let_def cleanup_list_lookup)
qed

text \<open>
  The second scenario of the specification: \<^verbatim>\<open>idle_timeout=1\<close>, interval 1, \<^verbatim>\<open>x\<close> acquired
  at time 0 and not released. The wake-up at time 3 removes the client although its
  reference count is 1; then the stop event ends the loop.
\<close>
lemma reclaimer_removes_referenced_client:
  "periodic_cleanup 1 [Some 3, None]
     (run [Get 0 0 (Inr (plain_client 1)) ''x''] (new_manager 10 1 1 3600))
   = (Return (),
      (new_manager 10 1 1 3600)\<lparr>last_used := [(''x'', 0)], client_created_time := [(''x'', 0)],
         trace := [CountWrite ''x'' True, CountWrite ''x'' True, Teardown ''x'',
                   VectorClose ''x'' Returns, DbClose ''x'' Returns,
                   DelClient ''x'' False, CountWrite ''x'' False]\<rparr>)"
  by (simp add: eval_defs)

text \<open>
  Claim C4 says that a scan evicts every entry that is idle for longer than
  \<^verbatim>\<open>idle_timeout\<close> or older than \<^verbatim>\<open>max_lifetime\<close>. The scan does mark every such entry and
  calls \<^verbatim>\<open>_cleanup_client\<close> for it, whatever its reference count; but that method gives up
  at the first close step that raises. A client acquired at time 0 whose vector store
  fails to close is expired at time 2000 (idle for 2000 seconds, with a time-out of 100)
  and is still in the pool after the scan, with its reference count.
\<close>
theorem reclaimer_scan_keeps_expired_client_whose_close_raises:
  "expired (run [Get 0 0 (Inr (failing_client 1)) ''a''] scenario_pool) 2000 (''a'', 0)
   \<and> map_of (clients (snd (reclaimer_scan 300 2000
         (run [Get 0 0 (Inr (failing_client 1)) ''a''] scenario_pool)))) ''a''
       = Some (failing_client 1)
   \<and> map_of (connection_counts (snd (reclaimer_scan 300 2000
         (run [Get 0 0 (Inr (failing_client 1)) ''a''] scenario_pool)))) ''a'' = Some 1"
  by (simp add: eval_defs)

section \<open>Releasing\<close>

text \<open>Releasing a key without a reference count changes nothing and returns.\<close>
lemma release_absent_noop:
  "\<not> lock s \<Longrightarrow> map_of (connection_counts s) k = None \<Longrightarrow> release_client k s = (Return (), s)"
  by (simp add: release_client_def)

lemma release_returns: "\<not> lock s \<Longrightarrow> fst (release_client k s) = Return ()"
  by (simp add: release_client_def Let_def)

lemma release_decrements:
  "\<not> lock s \<Longrightarrow> map_of (connection_counts s) k = Some n \<Longrightarrow> 1 < n \<Longrightarrow>
     map_of (connection_counts (snd (release_client k s))) k = Some (n - 1)
     \<and> clients (snd (release_client k s)) = clients s"
  by (simp add: release_client_def Let_def AList.update_conv')

text \<open>The last release removes the entry when its teardown completes.\<close>
lemma release_removes_entry:
  "\<not> lock s \<Longrightarrow> map_of (connection_counts s) k = Some n \<Longrightarrow> n \<le> 1 \<Longrightarrow> removes k s \<Longrightarrow>
     map_of (clients (snd (release_client k s))) k = None
     \<and> map_of (connection_counts (snd (release_client k s))) k = None"
  by (simp add: release_client_def Let_def cleanup_client_clients cleanup_client_counts
      removes_def AList.delete_conv')

text \<open>
  Claim C5 says that \<^verbatim>\<open>release_client\<close> decrements the reference count of an existing
  entry, tears the entry down and removes it when the count drops to 0 or below, and is a
  no-op on an absent key. The decrement and the no-op are as claimed
  (\<open>release_decrements\<close>, \<open>release_absent_noop\<close>), and so is the removal when no close step
  raises (\<open>release_removes_entry\<close>). When the vector store of the client fails to close,
  the release of the only reference brings the count to 0, starts the teardown and
  removes nothing: the client stays in the pool with reference count 0.
\<close>
theorem release_client_keeps_client_whose_close_raises:
  "release_client ''a'' (run [Get 0 0 (Inr (failing_client 1)) ''a''] scenario_pool)
   = (Return (),
      scenario_pool\<lparr>clients := [(''a'', failing_client 1)], connection_counts := [(''a'', 0)],
        last_used := [(''a'', 0)], client_created_time := [(''a'', 0)],
        trace := [CountWrite ''a'' True, CountWrite ''a'' True, CountWrite ''a'' True,
                  Teardown ''a'', VectorClose ''a'' Raises]\<rparr>)"
  by (simp add: eval_defs)

text \<open>
  One acquisition and two releases of a client whose teardown completes: the first
  release removes the entry, the second one finds no reference count and changes nothing.
\<close>
lemma single_acquire_double_release:
  assumes "\<not> lock s" "map_of (clients s) k = None" "map_of (connection_counts s) k = None"
    "int (length (clients s)) < max_pool_size s" "tears_down h"
  shows "map_of (connection_counts (step (Get t fc (Inr h) k) s)) k = Some 1
    \<and> map_of (clients (step (Release k) (step (Get t fc (Inr h) k) s))) k = None
    \<and> map_of (connection_counts (step (Release k) (step (Get t fc (Inr h) k) s))) k = None
    \<and> release_client k (step (Release k) (step (Get t fc (Inr h) k) s))
        = (Return (), step (Release k) (step (Get t fc (Inr h) k) s))"
proof -
  let ?s1 = "step (Get t fc (Inr h) k) s"
  have g: "map_of (connection_counts ?s1) k = Some 1" "map_of (clients ?s1) k = Some h"
    "\<not> lock ?s1"
    using get_client_admits [OF assms(1,2,4)] by simp_all
  then have r: "removes k ?s1" using assms(5) by (simp add: removes_def)
  let ?s2 = "step (Release k) ?s1"
  have gone: "map_of (clients ?s2) k = None" "map_of (connection_counts ?s2) k = None"
    using release_removes_entry [OF g(3) g(1) _ r] by simp_all
  have l2: "\<not> lock ?s2" using g(3) by (simp add: release_client_def Let_def)
  have "release_client k ?s2 = (Return (), ?s2)"
    by (rule release_absent_noop [OF l2 gone(2)])
  with g gone show ?thesis by simp
qed

text \<open>
  Claim C6 says that after one acquisition and two releases of \<^verbatim>\<open>a\<close> the entry is removed
  and no negative reference count is produced. That is what happens when the teardown
  completes (\<open>single_acquire_double_release\<close>). When the vector store of the client fails
  to close, the first release leaves the entry with count 0, so the second release finds
  it, decrements again and fails to tear it down again: the entry is still in the pool,
  with reference count \<open>-1\<close>.
\<close>
theorem double_release_reaches_negative_count:
  "map_of (connection_counts
      (run [Get 0 0 (Inr (failing_client 1)) ''a'', Release ''a'', Release ''a''] scenario_pool))
      ''a'' = Some (- 1)
   \<and> map_of (clients
      (run [Get 0 0 (Inr (failing_client 1)) ''a'', Release ''a'', Release ''a''] scenario_pool))
      ''a'' = Some (failing_client 1)"
  by (simp add: eval_defs)

section \<open>The client factory\<close>

lemma set_openai_key_other:
  "name \<noteq> ''OPENAI_API_KEY'' \<Longrightarrow> set_openai_key env name = env name"
  by (simp add: set_openai_key_def split: option.split)

text \<open>The factory writes at most the two API key variables of the environment.\<close>
lemma llm_section_env:
  "name \<noteq> ''OPENAI_API_KEY'' \<Longrightarrow> name \<noteq> ''OPENROUTER_API_KEY''
     \<Longrightarrow> snd (llm_section env) name = env name"
  by (simp add: llm_section_def Let_def set_openai_key_other split: option.split)

lemma dims_fails:
  "dims py_int v d = Inl e \<Longrightarrow> e = ValueError \<and> (\<exists>x. v = Some x \<and> x \<noteq> [] \<and> py_int x = None)"
  by (auto simp: dims_def split: option.splits if_splits)

lemma embedder_section_fails:
  "embedder_section py_int (c, env) = Inl e
     \<Longrightarrow> e = ValueError \<and> (\<exists>x. env ''EMBEDDING_DIMS'' = Some x \<and> x \<noteq> [] \<and> py_int x = None)"
  by (auto simp: embedder_section_def Let_def split: if_splits sum.splits dest: dims_fails)

lemma embedder_section_env:
  "embedder_section py_int (c, env) = Inr (c', env') \<Longrightarrow> name \<noteq> ''OPENAI_API_KEY''
     \<Longrightarrow> env' name = env name"
  by (auto simp: embedder_section_def Let_def set_openai_key_other split: if_splits sum.splits)

lemma connection_string_vector_section:
  "connection_string (vector_section env config) =
     Some (PStr (case env ''DATABASE_URL'' of None \<Rightarrow> [] | Some url \<Rightarrow> url))"
  by (simp add: connection_string_def vector_section_def sub_dict_def Let_def AList.update_conv')

text \<open>
  Claim C7 says that the factory raises \<^verbatim>\<open>ConfigurationError\<close> whenever \<^verbatim>\<open>DATABASE_URL\<close> is
  absent, and whenever required configuration is absent or malformed. The factory has no
  such check. With a provider and malformed \<^verbatim>\<open>EMBEDDING_DIMS\<close>, and no \<^verbatim>\<open>DATABASE_URL\<close>, it
  raises the \<^verbatim>\<open>ValueError\<close> of \<^verbatim>\<open>int\<close>, whatever the library would do; with an empty
  environment and a library that accepts the configuration it returns a client.
\<close>
theorem get_mem0_client_no_configuration_error:
  "(\<forall>from_config. fst (get_mem0_client rejecting_int from_config malformed_env) = Inl ValueError)
   \<and> malformed_env ''DATABASE_URL'' = None
   \<and> fst (get_mem0_client rejecting_int lenient_from_config Map.empty) = Inr (Handle 0 None None)"
  by (simp add: get_mem0_client_def llm_section_def embedder_section_def dims_def
      set_openai_key_def truthy_def with_base_url_def llm_options_def malformed_env_def
      rejecting_int_def lenient_from_config_def Let_def)

text \<open>
  Claim C7 as amended. The factory does not validate its configuration. It either hands
  \<^verbatim>\<open>Memory.from_config\<close> a configuration whose connection string is the value of
  \<^verbatim>\<open>DATABASE_URL\<close>, or the empty string when the variable is absent, and then its outcome
  (a client or an exception) is the outcome of that call; or it raises \<^verbatim>\<open>ValueError\<close>
  because \<^verbatim>\<open>EMBEDDING_DIMS\<close> is set, not empty and not accepted by \<^verbatim>\<open>int\<close>.
\<close>
theorem get_mem0_client_delegates:
  "(\<exists>config. fst (get_mem0_client py_int from_config env) = from_config config
       \<and> connection_string config
           = Some (PStr (case env ''DATABASE_URL'' of None \<Rightarrow> [] | Some url \<Rightarrow> url)))
   \<or> (fst (get_mem0_client py_int from_config env) = Inl ValueError
       \<and> (\<exists>x. env ''EMBEDDING_DIMS'' = Some x \<and> x \<noteq> [] \<and> py_int x = None))"
proof (cases "llm_section env")
  case (Pair config1 env1)
  have db: "env1 ''DATABASE_URL'' = env ''DATABASE_URL''"
    and ed: "env1 ''EMBEDDING_DIMS'' = env ''EMBEDDING_DIMS''"
    using llm_section_env [of "''DATABASE_URL''" env] llm_section_env [of "''EMBEDDING_DIMS''" env]
      Pair
    by simp_all
  show ?thesis
  proof (cases "embedder_section py_int (config1, env1)")
    case (Inl e)
    from embedder_section_fails [OF Inl] ed Pair Inl show ?thesis
      by (simp add: get_mem0_client_def)
  next
    case (Inr ce)
    obtain config2 env2 where ce: "ce = (config2, env2)" by (cases ce)
    have "env2 ''DATABASE_URL'' = env ''DATABASE_URL''"
      using embedder_section_env [of py_int config1 env1 config2 env2 "''DATABASE_URL''"] Inr ce db
      by simp
    then have "connection_string (vector_section env2 config2)
        = Some (PStr (case env ''DATABASE_URL'' of None \<Rightarrow> [] | Some url \<Rightarrow> url))"
      by (simp add: connection_string_vector_section)
    moreover have "fst (get_mem0_client py_int from_config env)
        = from_config (vector_section env2 config2)"
      using Pair Inr ce by (simp add: get_mem0_client_def)
    ultimately show ?thesis by blast
  qed
qed

section \<open>The time stamps outlive the entries\<close>

lemma release_client_frame:
  "last_used (snd (release_client k s)) = last_used s"
  "client_created_time (snd (release_client k s)) = client_created_time s"
  by (simp_all add: release_client_def Let_def split: option.split)

lemma cleanup_all_frame:
  "last_used (snd (cleanup_all s)) = last_used s"
  "client_created_time (snd (cleanup_all s)) = client_created_time s"
  by (simp_all add: cleanup_all_def Let_def)

lemma reclaimer_scan_frame:
  "last_used (snd (reclaimer_scan i t s)) = last_used s"
  "client_created_time (snd (reclaimer_scan i t s)) = client_created_time s"
  by (simp_all add: reclaimer_scan_def log_stats_def Let_def)

lemma get_client_last_used_keys:
  "keys (last_used s) \<subseteq> keys (last_used (snd (get_client t fc created k s)))"
  using use_client_keys(1) [of "s\<lparr>lock := True\<rparr>" t k]
    use_client_keys(1) [of "store_client t k h (s\<lparr>lock := True\<rparr>)" t k for h]
  by (simp add: get_client_cases snd_unlock_fields split: option.split sum.split)

lemma get_client_created_keys:
  "keys (client_created_time s) \<subseteq> keys (client_created_time (snd (get_client t fc created k s)))"
  by (auto simp: get_client_cases snd_unlock_fields use_client_keys(2) keys_update
      split: option.split sum.split)

lemma step_last_used_keys: "keys (last_used s) \<subseteq> keys (last_used (step x s))"
  by (cases x) (simp_all add: get_client_last_used_keys release_client_frame cleanup_all_frame
      reclaimer_scan_frame)

lemma step_created_keys:
  "keys (client_created_time s) \<subseteq> keys (client_created_time (step x s))"
  by (cases x) (simp_all add: get_client_created_keys release_client_frame cleanup_all_frame
      reclaimer_scan_frame)

lemma run_last_used_keys: "keys (last_used s) \<subseteq> keys (last_used (run ops s))"
  unfolding run_def
proof (induction ops arbitrary: s)
  case Nil
  show ?case by simp
next
  case (Cons x ops)
  from Cons.IH [of "step x s"] step_last_used_keys [of s x] show ?case by auto
qed

lemma run_created_keys:
  "keys (client_created_time s) \<subseteq> keys (client_created_time (run ops s))"
  unfolding run_def
proof (induction ops arbitrary: s)
  case Nil
  show ?case by simp
next
  case (Cons x ops)
  from Cons.IH [of "step x s"] step_created_keys [of s x] show ?case by auto
qed

lemma stamped_step: "stamped s \<Longrightarrow> stamped (step x s)"
proof (cases x)
  case (Get t fc created k)
  assume st: "stamped s"
  show ?thesis
  proof (cases "map_of (clients s) k")
    case None
    with st Get show ?thesis
      using use_client_keys(1) [of "s\<lparr>lock := True\<rparr>" t k]
      by (auto simp: stamped_def get_client_cases snd_unlock_fields use_client_clients
          use_client_last_used use_client_keys(2) keys_update AList.update_conv'
          split: sum.split)
  next
    case (Some h)
    with st Get show ?thesis
      using use_client_keys(1) [of "s\<lparr>lock := True\<rparr>" t k]
      by (auto simp: stamped_def get_client_cases snd_unlock_fields use_client_clients
          use_client_keys(2))
  qed
next
  case (Release k)
  assume st: "stamped s"
  have "keys (clients (snd (release_client k s))) \<subseteq> keys (clients s)"
    by (auto simp: release_client_def Let_def cleanup_client_clients keys_delete
        split: option.split)
  with st Release show ?thesis by (auto simp: stamped_def release_client_frame)
next
  case CleanupAll
  assume st: "stamped s"
  have "keys (clients (snd (cleanup_all s))) \<subseteq> keys (clients s)"
    using cleanup_list_keys [of "s\<lparr>lock := True\<rparr>"]
    by (simp add: cleanup_all_def Let_def)
  with st CleanupAll show ?thesis by (auto simp: stamped_def cleanup_all_frame)
next
  case (Scan i t)
  assume st: "stamped s"
  have "keys (clients (snd (reclaimer_scan i t s))) \<subseteq> keys (clients s)"
    using cleanup_list_keys [of "s\<lparr>lock := False\<rparr>"]
    by (auto simp: reclaimer_scan_def log_stats_def Let_def)
  with st Scan show ?thesis by (auto simp: stamped_def reclaimer_scan_frame)
qed

lemma stamped_run: "stamped s \<Longrightarrow> stamped (run ops s)"
  unfolding run_def by (induction ops arbitrary: s) (simp_all add: stamped_step)

lemma stamped_new_manager: "stamped (new_manager a b c d)"
  by (simp add: stamped_def new_manager_def keys_def)

lemma run_append: "run (ops @ ops') s = run ops' (run ops s)"
  by (simp add: run_def)

lemma get_client_returns_key:
  "fst (get_client t fc created k s) = Return h
     \<Longrightarrow> map_of (clients (snd (get_client t fc created k s))) k = Some h"
  by (auto simp: get_client_cases unlock_def use_client_def Let_def
      split: if_splits option.splits sum.splits)

text \<open>A key that was handed out stays in both time dictionaries for the rest of the run.\<close>
lemma acquired_key_stays:
  assumes "fst (get_client t fc created k (run ops (new_manager a b c d))) = Return h"
  shows "k \<in> keys (last_used
            (run ops' (snd (get_client t fc created k (run ops (new_manager a b c d))))))
       \<and> k \<in> keys (client_created_time
            (run ops' (snd (get_client t fc created k (run ops (new_manager a b c d))))))"
proof -
  let ?s = "run ops (new_manager a b c d)"
  let ?s' = "snd (get_client t fc created k ?s)"
  have "?s' = run (ops @ [Get t fc created k]) (new_manager a b c d)"
    by (simp add: run_def)
  then have "stamped ?s'" using stamped_run [OF stamped_new_manager] by simp
  moreover have "k \<in> keys (clients ?s')"
    using get_client_returns_key [OF assms] by (simp add: keys_map_of)
  ultimately have "k \<in> keys (last_used ?s')" "k \<in> keys (client_created_time ?s')"
    by (auto simp: stamped_def)
  with run_last_used_keys [of ?s' ops'] run_created_keys [of ?s' ops'] show ?thesis by auto
qed

text \<open>
  Claim C8. \<^verbatim>\<open>_cleanup_client\<close> never changes \<^verbatim>\<open>_last_used\<close> or \<^verbatim>\<open>client_created_time\<close>; what
  it deletes, when it reaches its \<^verbatim>\<open>del\<close> statements, is the key's entry of \<^verbatim>\<open>_clients\<close>
  and of \<^verbatim>\<open>_connection_counts\<close>. No operation of the manager removes a key from the two
  time dictionaries, so over any run they only grow, and in every state reached from a
  new manager they hold the key of every pooled client. The four dictionaries have the
  same keys in a new manager, but no longer after an acquisition followed by a release,
  or by a scan of the reclaimer. A key that \<^verbatim>\<open>get_client\<close> has handed out at any point of a
  run of a new manager is in both time dictionaries at every later point.
\<close>
theorem teardown_keeps_timestamps:
  "last_used (cleanup_client k s) = last_used s
   \<and> client_created_time (cleanup_client k s) = client_created_time s
   \<and> clients (cleanup_client k s)
       = (if removes k s then AList.delete k (clients s) else clients s)
   \<and> connection_counts (cleanup_client k s)
       = (if removes k s then AList.delete k (connection_counts s) else connection_counts s)
   \<and> keys (last_used s) \<subseteq> keys (last_used (step x s))
   \<and> keys (client_created_time s) \<subseteq> keys (client_created_time (step x s))
   \<and> keys (last_used (run ops s)) \<subseteq> keys (last_used (run (ops @ ops') s))
   \<and> keys (client_created_time (run ops s)) \<subseteq> keys (client_created_time (run (ops @ ops') s))
   \<and> stamped (run ops (new_manager a b c d))
   \<and> same_keys (new_manager a b c d)
   \<and> \<not> same_keys (run [Get 0 0 (Inr (plain_client 1)) ''a'', Release ''a''] scenario_pool)
   \<and> keys (last_used (run [Get 0 0 (Inr (plain_client 1)) ''a'', Release ''a''] scenario_pool))
       = {''a''}
   \<and> keys (clients (run [Get 0 0 (Inr (plain_client 1)) ''a'', Release ''a''] scenario_pool))
       = {}
   \<and> \<not> same_keys (run [Get 0 0 (Inr (plain_client 1)) ''a'', Scan 300 2000] scenario_pool)
   \<and> (fst (get_client t fc created k' (run ops (new_manager a b c d))) = Return h \<longrightarrow>
        k' \<in> keys (last_used
               (run ops' (snd (get_client t fc created k' (run ops (new_manager a b c d))))))
        \<and> k' \<in> keys (client_created_time
               (run ops' (snd (get_client t fc created k' (run ops (new_manager a b c d)))))))"
proof -
  have a: "same_keys (new_manager a b c d)"
    by (simp add: same_keys_def new_manager_def keys_def)
  have r: "clients (run [Get 0 0 (Inr (plain_client 1)) ''a'', Release ''a''] scenario_pool) = []"
    "last_used (run [Get 0 0 (Inr (plain_client 1)) ''a'', Release ''a''] scenario_pool)
       = [(''a'', 0)]"
    by (simp_all add: eval_defs)
  have sc: "clients (run [Get 0 0 (Inr (plain_client 1)) ''a'', Scan 300 2000] scenario_pool) = []"
    "last_used (run [Get 0 0 (Inr (plain_client 1)) ''a'', Scan 300 2000] scenario_pool)
       = [(''a'', 0)]"
    "connection_counts (run [Get 0 0 (Inr (plain_client 1)) ''a'', Scan 300 2000] scenario_pool)
       = []"
    by (simp_all add: eval_defs)
  have r': "connection_counts
      (run [Get 0 0 (Inr (plain_client 1)) ''a'', Release ''a''] scenario_pool) = []"
    by (simp add: eval_defs)
  have n1: "\<not> same_keys (run [Get 0 0 (Inr (plain_client 1)) ''a'', Release ''a''] scenario_pool)"
    unfolding same_keys_def r r' by (simp add: keys_def)
  have n2: "\<not> same_keys (run [Get 0 0 (Inr (plain_client 1)) ''a'', Scan 300 2000] scenario_pool)"
    unfolding same_keys_def sc by (simp add: keys_def)
  have k1: "keys (last_used (run [Get 0 0 (Inr (plain_client 1)) ''a'', Release ''a'']
      scenario_pool)) = {''a''}"
    unfolding r by (simp add: keys_def)
  have k2: "keys (clients (run [Get 0 0 (Inr (plain_client 1)) ''a'', Release ''a'']
      scenario_pool)) = {}"
    unfolding r by (simp add: keys_def)
  show ?thesis
    using a n1 n2 k1 k2 cleanup_client_clients [of k s] cleanup_client_counts [of k s]
      step_last_used_keys [of s x] step_created_keys [of s x]
      run_last_used_keys [of "run ops s" ops'] run_created_keys [of "run ops s" ops']
      stamped_run [OF stamped_new_manager, of ops a b c d]
      acquired_key_stays [of t fc created k' ops a b c d h ops']
    by (simp add: run_append)
qed

theorem teardown_keeps_timestamps_witness:
  "fst (get_client 0 0 (Inr (plain_client 1)) ''a'' (run [] (new_manager 2 300 100 1000)))
     = Return (plain_client 1)
   \<and> ''a'' \<in> keys (last_used (run [Release ''a'']
        (snd (get_client 0 0 (Inr (plain_client 1)) ''a'' (run [] (new_manager 2 300 100 1000))))))
   \<and> ''a'' \<in> keys (client_created_time (run [Release ''a'']
        (snd (get_client 0 0 (Inr (plain_client 1)) ''a'' (run [] (new_manager 2 300 100 1000))))))
   \<and> ''a'' \<notin> keys (clients (run [Release ''a'']
        (snd (get_client 0 0 (Inr (plain_client 1)) ''a'' (run [] (new_manager 2 300 100 1000))))))"
proof -
  have g: "fst (get_client 0 0 (Inr (plain_client 1)) ''a'' (run [] (new_manager 2 300 100 1000)))
      = Return (plain_client 1)"
    by (simp add: eval_defs)
  have c: "clients (run [Release ''a'']
      (snd (get_client 0 0 (Inr (plain_client 1)) ''a'' (run [] (new_manager 2 300 100 1000)))))
      = []"
    by (simp add: eval_defs)
  have n: "''a'' \<notin> keys (clients (run [Release ''a'']
      (snd (get_client 0 0 (Inr (plain_client 1)) ''a'' (run [] (new_manager 2 300 100 1000))))))"
    unfolding c by (simp add: keys_def)
  from g n teardown_keeps_timestamps
    [where t = 0 and fc = 0 and created = "Inr (plain_client 1)" and k' = "''a''"
       and ops = "[]" and a = 2 and b = 300 and c = 100 and d = 1000
       and h = "plain_client 1" and ops' = "[Release ''a'']"]
  show ?thesis by blast
qed

end
